theory Spec2Isabelle
  imports Complex_Main "HOL-Library.Multiset"
begin

section \<open>JavaScript values\<close>

text \<open>
  A JavaScript number is a finite double, an infinity or NaN. A finite double is
  represented by the real it stands for: rounding and the sign of zero are not
  modelled. Overflow to an infinity and the special values follow IEEE 754.
\<close>

datatype jsnum = Fin real | PInf | NInf | NaN

text \<open>
  A JavaScript string is a sequence of UTF-16 code units (numbers below 65536);
  \<open>u16\<close> turns a literal into its code units. Property names and document ids,
  which are only compared, stay literals.
\<close>

type_synonym jsstring = "nat list"

definition u16 :: "string \<Rightarrow> jsstring" where
  "u16 s = map of_char s"

text \<open>What \<open>toDate()\<close> of a Timestamp-like object does: it returns a Date or it throws.\<close>

datatype toDate_result = ToDateThrows | ToDateReturns int

text \<open>
  The values a field of a job can hold at run time (\<open>d.data() as any\<close>). \<open>JObj\<close> is
  an object with the listed properties (a map, a GeoPoint). \<open>JDate\<close> is a valid Date
  with its time value in milliseconds since the epoch (within the range of time
  values). \<open>JTimestamp\<close> is an object
  whose \<open>toDate\<close> property is a function.
\<close>

datatype jsval =
    JUndefined
  | JNull
  | JBool bool
  | JNum jsnum
  | JStr jsstring
  | JArr "jsval list"
  | JObj "(string \<times> jsval) list"
  | JDate int
  | JTimestamp toDate_result

fun truthy :: "jsval \<Rightarrow> bool" where
  "truthy JUndefined = False"
| "truthy JNull = False"
| "truthy (JBool b) = b"
| "truthy (JNum n) = (n \<noteq> Fin 0 \<and> n \<noteq> NaN)"
| "truthy (JStr s) = (s \<noteq> [])"
| "truthy (JArr _) = True"
| "truthy (JObj _) = True"
| "truthy (JDate _) = True"
| "truthy (JTimestamp _) = True"

text \<open>\<open>typeof v === "number" ? v : undefined\<close>\<close>

fun number_or_undefined :: "jsval \<Rightarrow> jsnum option" where
  "number_or_undefined (JNum n) = Some n"
| "number_or_undefined _ = None"

section \<open>The job record\<close>

text \<open>
  \<open>JobFeedItem\<close> of \<open>jobs/page.tsx\<close>. The fields the code tests at run time
  (\<open>typeof\<close>, \<open>normalize\<close>, \<open>tsToDate\<close>) hold any value; an absent field is
  \<open>JUndefined\<close>. The fields \<open>id\<close>, \<open>zip\<close>, \<open>lat\<close> and \<open>lng\<close> carry a suffix.
\<close>

record JobFeedItem =
  id_field :: string
  userId :: "string option"
  title :: jsval
  description :: jsval
  address :: "string option"
  zip_field :: jsval
  tip :: jsval
  pay :: jsval
  standingOffer :: "bool option"
  endDate :: jsval
  creationDate :: jsval
  location :: jsval
  latitude :: jsval
  longitude :: jsval
  lat_field :: jsval
  lng_field :: jsval

definition tipOf :: "JobFeedItem \<Rightarrow> jsnum" where
  "tipOf job =
     (let t = number_or_undefined (tip job);
          p = number_or_undefined (pay job)
      in case t of Some n \<Rightarrow> n
         | None \<Rightarrow> (case p of Some n \<Rightarrow> n | None \<Rightarrow> Fin 0))"

section \<open>Strings\<close>

text \<open>
  \<open>String.prototype.trim\<close> strips the white space and line terminators of
  ECMAScript from both ends: tab, line feed, vertical tab, form feed, carriage return,
  space, no-break space, U+1680, U+2000 to U+200A, U+2028, U+2029, U+202F, U+205F,
  U+3000 and U+FEFF. \<open>includes\<close> is the substring test on code units.
  \<open>toLowerCase\<close> maps the capital letters of ASCII and Latin-1; the case mapping of
  the letters beyond Latin-1 is not modelled (they are left as they are).
\<close>

definition is_space :: "nat \<Rightarrow> bool" where
  "is_space c =
     (c \<in> set [0x09, 0x0A, 0x0B, 0x0C, 0x0D, 0x20, 0xA0, 0x1680, 0x2028, 0x2029,
                 0x202F, 0x205F, 0x3000, 0xFEFF]
      \<or> (0x2000 \<le> c \<and> c \<le> 0x200A))"

definition trim :: "jsstring \<Rightarrow> jsstring" where
  "trim s = rev (dropWhile is_space (rev (dropWhile is_space s)))"

definition lower_unit :: "nat \<Rightarrow> nat" where
  "lower_unit c =
     (if (0x41 \<le> c \<and> c \<le> 0x5A) \<or> (0xC0 \<le> c \<and> c \<le> 0xDE \<and> c \<noteq> 0xD7)
      then c + 32 else c)"

definition toLowerCase :: "jsstring \<Rightarrow> jsstring" where
  "toLowerCase s = map lower_unit s"

fun starts_with :: "jsstring \<Rightarrow> jsstring \<Rightarrow> bool" where
  "starts_with _ [] = True"
| "starts_with [] (_ # _) = False"
| "starts_with (c # cs) (d # ds) = (c = d \<and> starts_with cs ds)"

fun includes_str :: "jsstring \<Rightarrow> jsstring \<Rightarrow> bool" where
  "includes_str [] needle = (needle = [])"
| "includes_str (c # cs) needle = (starts_with (c # cs) needle \<or> includes_str cs needle)"

text \<open>\<open>normalize = (s) => typeof s === "string" ? s.trim() : ""\<close>\<close>

fun normalize :: "jsval \<Rightarrow> jsstring" where
  "normalize (JStr s) = trim s"
| "normalize _ = []"

section \<open>Activity\<close>

fun tsToDate :: "jsval \<Rightarrow> int option" where
  "tsToDate ts =
     (if \<not> truthy ts then None
      else case ts of
             JTimestamp r \<Rightarrow> (case r of ToDateReturns t \<Rightarrow> Some t | ToDateThrows \<Rightarrow> None)
           | JDate t \<Rightarrow> Some t
           | _ \<Rightarrow> None)"

text \<open>
  \<open>new Date()\<close> reads the clock, and \<open>setHours(0, 0, 0, 0)\<close> goes to local midnight.
  The clock and the time zone are passed in: \<open>now\<close> is the current time in
  milliseconds since the epoch, \<open>offsetAtUTC t\<close> the milliseconds that local time is
  ahead of UTC at the instant \<open>t\<close>, and \<open>offsetAtLocal t\<close> the offset that the zone
  gives the local time \<open>t\<close> (ECMAScript's \<open>LocalTZA(t, true)\<close> and
  \<open>LocalTZA(t, false)\<close>). The limit on the range of time values is not modelled.
\<close>

record clock =
  now :: int
  offsetAtUTC :: "int \<Rightarrow> int"
  offsetAtLocal :: "int \<Rightarrow> int"

definition msPerDay :: int where
  "msPerDay = 86400000"

definition LocalTime :: "clock \<Rightarrow> int \<Rightarrow> int" where
  "LocalTime clk t = t + offsetAtUTC clk t"

definition UTC :: "clock \<Rightarrow> int \<Rightarrow> int" where
  "UTC clk t = t - offsetAtLocal clk t"

definition Day :: "int \<Rightarrow> int" where
  "Day t = t div msPerDay"

text \<open>
  \<open>Date.prototype.setHours(0, 0, 0, 0)\<close> on the time value \<open>t\<close>: the local time of
  \<open>t\<close>, its day at time 0, and back to UTC.
\<close>

definition setHours0 :: "clock \<Rightarrow> int \<Rightarrow> int" where
  "setHours0 clk t =
     (let local = LocalTime clk t;
          date = Day local * msPerDay
      in UTC clk date)"

definition isActive :: "clock \<Rightarrow> JobFeedItem \<Rightarrow> bool" where
  "isActive clk job =
     (if standingOffer job = Some True then True
      else case tsToDate (endDate job) of
             None \<Rightarrow> True
           | Some d \<Rightarrow>
               (let today = setHours0 clk (now clk);
                    end = setHours0 clk d
                in end \<ge> today))"





section \<open>Coordinates\<close>

record LatLng =
  lat :: jsnum
  lng :: jsnum

text \<open>
  Property access \<open>v.k\<close>. Only plain objects carry the properties read here; on the
  other truthy values the lookup finds nothing. The source reads a property of
  \<open>job.location\<close> only behind the test that it is truthy.
\<close>

fun get_prop :: "jsval \<Rightarrow> string \<Rightarrow> jsval" where
  "get_prop (JObj kvs) k = (case map_of kvs k of Some v \<Rightarrow> v | None \<Rightarrow> JUndefined)"
| "get_prop _ k = JUndefined"

definition jobCoords :: "JobFeedItem \<Rightarrow> LatLng option" where
  "jobCoords job =
     (case (truthy (location job),
            number_or_undefined (get_prop (location job) ''latitude''),
            number_or_undefined (get_prop (location job) ''longitude'')) of
        (True, Some a, Some b) \<Rightarrow> Some \<lparr>lat = a, lng = b\<rparr>
      | _ \<Rightarrow>
     (case (truthy (location job),
            number_or_undefined (get_prop (location job) ''lat''),
            number_or_undefined (get_prop (location job) ''lng'')) of
        (True, Some a, Some b) \<Rightarrow> Some \<lparr>lat = a, lng = b\<rparr>
      | _ \<Rightarrow>
     (case (number_or_undefined (latitude job), number_or_undefined (longitude job)) of
        (Some a, Some b) \<Rightarrow> Some \<lparr>lat = a, lng = b\<rparr>
      | _ \<Rightarrow>
     (case (number_or_undefined (lat_field job), number_or_undefined (lng_field job)) of
        (Some a, Some b) \<Rightarrow> Some \<lparr>lat = a, lng = b\<rparr>
      | _ \<Rightarrow> None))))"

text \<open>
  The extractor as the specification words it: the four shapes in their order, and
  the first one whose two values pass the test. The specification's test is
  "two finite numbers".
\<close>

definition nested :: "JobFeedItem \<Rightarrow> string \<Rightarrow> jsval" where
  "nested job k = (if truthy (location job) then get_prop (location job) k else JUndefined)"

definition shapes :: "JobFeedItem \<Rightarrow> (jsval \<times> jsval) list" where
  "shapes job =
     [(nested job ''latitude'', nested job ''longitude''),
      (nested job ''lat'', nested job ''lng''),
      (latitude job, longitude job),
      (lat_field job, lng_field job)]"

fun first_shape :: "(jsnum \<Rightarrow> bool) \<Rightarrow> (jsval \<times> jsval) list \<Rightarrow> LatLng option" where
  "first_shape test [] = None"
| "first_shape test ((JNum a, JNum b) # rest) =
     (if test a \<and> test b then Some \<lparr>lat = a, lng = b\<rparr> else first_shape test rest)"
| "first_shape test (_ # rest) = first_shape test rest"

fun isFinite :: "jsnum \<Rightarrow> bool" where
  "isFinite (Fin _) = True"
| "isFinite _ = False"

definition extractCoords_spec :: "JobFeedItem \<Rightarrow> LatLng option" where
  "extractCoords_spec job = first_shape isFinite (shapes job)"

text \<open>\<open>typeof n === "number"\<close> holds of every number, NaN and the infinities included.\<close>

definition any_number :: "jsnum \<Rightarrow> bool" where
  "any_number n = True"

section \<open>Arithmetic on JavaScript numbers\<close>

text \<open>
  The largest finite double, \<open>Number.MAX_VALUE\<close>. A finite result of an operation is
  the real result when its magnitude is at most this value and an infinity beyond it
  (overflow); rounding is not modelled.
\<close>

definition MAX_VALUE :: real where
  "MAX_VALUE = (2 ^ 53 - 1) * 2 ^ 971"

definition overflow :: "real \<Rightarrow> jsnum" where
  "overflow r = (if r > MAX_VALUE then PInf else if r < - MAX_VALUE then NInf else Fin r)"

fun sign_of :: "jsnum \<Rightarrow> int" where
  "sign_of (Fin r) = (if r > 0 then 1 else if r < 0 then -1 else 0)"
| "sign_of PInf = 1"
| "sign_of NInf = -1"
| "sign_of NaN = 0"

fun js_neg :: "jsnum \<Rightarrow> jsnum" where
  "js_neg (Fin r) = Fin (- r)"
| "js_neg PInf = NInf"
| "js_neg NInf = PInf"
| "js_neg NaN = NaN"

fun js_add :: "jsnum \<Rightarrow> jsnum \<Rightarrow> jsnum" where
  "js_add (Fin a) (Fin b) = overflow (a + b)"
| "js_add NaN _ = NaN"
| "js_add _ NaN = NaN"
| "js_add PInf NInf = NaN"
| "js_add NInf PInf = NaN"
| "js_add PInf _ = PInf"
| "js_add _ PInf = PInf"
| "js_add NInf _ = NInf"
| "js_add _ NInf = NInf"

definition js_sub :: "jsnum \<Rightarrow> jsnum \<Rightarrow> jsnum" where
  "js_sub a b = js_add a (js_neg b)"

fun js_mul :: "jsnum \<Rightarrow> jsnum \<Rightarrow> jsnum" where
  "js_mul (Fin a) (Fin b) = overflow (a * b)"
| "js_mul NaN _ = NaN"
| "js_mul _ NaN = NaN"
| "js_mul a b =
     (let s = sign_of a * sign_of b
      in if s = 0 then NaN else if s > 0 then PInf else NInf)"

text \<open>Zero is the positive zero: a finite nonzero value divided by it is an infinity.\<close>

fun js_div :: "jsnum \<Rightarrow> jsnum \<Rightarrow> jsnum" where
  "js_div NaN _ = NaN"
| "js_div _ NaN = NaN"
| "js_div (Fin a) (Fin b) =
     (if b \<noteq> 0 then overflow (a / b)
      else if a = 0 then NaN else if a > 0 then PInf else NInf)"
| "js_div (Fin a) _ = Fin 0"
| "js_div a (Fin b) =
     (if (b \<ge> 0) = (a = PInf) then PInf else NInf)"
| "js_div _ _ = NaN"

fun js_sin :: "jsnum \<Rightarrow> jsnum" where
  "js_sin (Fin r) = Fin (sin r)"
| "js_sin _ = NaN"

fun js_cos :: "jsnum \<Rightarrow> jsnum" where
  "js_cos (Fin r) = Fin (cos r)"
| "js_cos _ = NaN"

fun js_asin :: "jsnum \<Rightarrow> jsnum" where
  "js_asin (Fin r) = (if -1 \<le> r \<and> r \<le> 1 then Fin (arcsin r) else NaN)"
| "js_asin _ = NaN"

fun js_sqrt :: "jsnum \<Rightarrow> jsnum" where
  "js_sqrt (Fin r) = (if r \<ge> 0 then Fin (sqrt r) else NaN)"
| "js_sqrt PInf = PInf"
| "js_sqrt _ = NaN"

fun js_le :: "jsnum \<Rightarrow> jsnum \<Rightarrow> bool" where
  "js_le NaN _ = False"
| "js_le _ NaN = False"
| "js_le (Fin a) (Fin b) = (a \<le> b)"
| "js_le NInf _ = True"
| "js_le _ PInf = True"
| "js_le _ _ = False"

definition js_min :: "jsnum \<Rightarrow> jsnum \<Rightarrow> jsnum" where
  "js_min a b = (if a = NaN \<or> b = NaN then NaN else if js_le a b then a else b)"

section \<open>Distance\<close>

definition toRad :: "jsnum \<Rightarrow> jsnum" where
  "toRad x = js_div (js_mul x (Fin pi)) (Fin 180)"

definition haversine_h :: "LatLng \<Rightarrow> LatLng \<Rightarrow> jsnum" where
  "haversine_h a b =
     (let dLat = toRad (js_sub (lat b) (lat a));
          dLng = toRad (js_sub (lng b) (lng a));
          lat1 = toRad (lat a);
          lat2 = toRad (lat b);
          s1 = js_sin (js_div dLat (Fin 2));
          s2 = js_sin (js_div dLng (Fin 2))
      in js_add (js_mul s1 s1) (js_mul (js_mul (js_mul (js_cos lat1) (js_cos lat2)) s2) s2))"

text \<open>\<open>c = 2 * Math.asin(Math.min(1, Math.sqrt(h)))\<close>, for any value of \<open>h\<close>.\<close>

definition central_angle :: "jsnum \<Rightarrow> jsnum" where
  "central_angle h = js_mul (Fin 2) (js_asin (js_min (Fin 1) (js_sqrt h)))"

definition haversineMiles :: "LatLng \<Rightarrow> LatLng \<Rightarrow> jsnum" where
  "haversineMiles a b =
     (let R = Fin (39587613 / 10000);
          h = haversine_h a b;
          c = central_angle h
      in js_mul R c)"


section \<open>Merging a further page\<close>

text \<open>
  The updater passed to \<open>setJobs\<close> on "load more": \<open>seen\<close> is built once from the
  previous list, and the loop pushes each item whose id is not in it.
\<close>

fun push_unseen :: "string set \<Rightarrow> JobFeedItem list \<Rightarrow> JobFeedItem list \<Rightarrow> JobFeedItem list" where
  "push_unseen seen merged [] = merged"
| "push_unseen seen merged (it # items) =
     push_unseen seen (if id_field it \<notin> seen then merged @ [it] else merged) items"

definition mergePage :: "JobFeedItem list \<Rightarrow> JobFeedItem list \<Rightarrow> JobFeedItem list" where
  "mergePage prev items = (let seen = set (map id_field prev) in push_unseen seen prev items)"

section \<open>The feed\<close>

datatype SortMode = newest | tipHigh | tipLow | distance

record ComputedJob =
  job :: JobFeedItem
  miles :: "jsnum option"
  hasCoords :: bool

text \<open>
  The state of the \<open>JobsPage\<close> component: its \<open>useState\<close> cells and the
  \<open>lastDocRef\<close> ref. The field \<open>sort\<close> carries a suffix.
\<close>

record feed_state =
  jobs :: "JobFeedItem list"
  loading :: bool
  refreshing :: bool
  error :: "string option"
  snack :: "bool \<times> string"
  lastDocRef :: "JobFeedItem option"
  hasMore :: bool
  loadingMore :: bool
  searchText :: jsstring
  zipFilter :: jsstring
  origin :: "LatLng option"
  radiusMiles :: jsnum
  enableRadius :: bool
  sort_mode :: SortMode

text \<open>The initial values of the cells.\<close>

definition initial_state :: feed_state where
  "initial_state =
     \<lparr> jobs = [], loading = True, refreshing = False, error = None, snack = (False, []),
       lastDocRef = None, hasMore = True, loadingMore = False, searchText = [],
       zipFilter = [], origin = None, radiusMiles = Fin 10, enableRadius = False,
       sort_mode = newest \<rparr>"

definition computed :: "JobFeedItem list \<Rightarrow> LatLng option \<Rightarrow> ComputedJob list" where
  "computed js originCoords =
     map (\<lambda>j. let jc = jobCoords j;
                  m = (case (originCoords, jc) of
                         (Some oc, Some c) \<Rightarrow> Some (haversineMiles oc c)
                       | _ \<Rightarrow> None)
              in \<lparr> job = j, miles = m, hasCoords = (jc \<noteq> None) \<rparr>) js"

text \<open>
  \<open>Array.prototype.sort\<close> with a comparator: a stable sort that puts \<open>x\<close> after
  \<open>y\<close> when the comparator's value on \<open>(x, y)\<close> is positive and takes a NaN value as
  0. It is modelled as a stable insertion sort.
\<close>

fun positive :: "jsnum \<Rightarrow> bool" where
  "positive (Fin r) = (r > 0)"
| "positive PInf = True"
| "positive _ = False"

fun js_insert :: "('a \<Rightarrow> 'a \<Rightarrow> jsnum) \<Rightarrow> 'a \<Rightarrow> 'a list \<Rightarrow> 'a list" where
  "js_insert cmp x [] = [x]"
| "js_insert cmp x (y # ys) =
     (if positive (cmp x y) then y # js_insert cmp x ys else x # y # ys)"

definition js_sort :: "('a \<Rightarrow> 'a \<Rightarrow> jsnum) \<Rightarrow> 'a list \<Rightarrow> 'a list" where
  "js_sort cmp xs = foldr (js_insert cmp) xs []"

text \<open>\<open>tsToDate(x.job.creationDate)?.getTime() ?? 0\<close>\<close>

definition creationTime :: "ComputedJob \<Rightarrow> jsnum" where
  "creationTime x =
     (case tsToDate (creationDate (job x)) of Some t \<Rightarrow> Fin (of_int t) | None \<Rightarrow> Fin 0)"

text \<open>\<open>typeof x.miles === "number" ? x.miles : Number.POSITIVE_INFINITY\<close>\<close>

definition milesOrInfinity :: "ComputedJob \<Rightarrow> jsnum" where
  "milesOrInfinity x = (case miles x of Some m \<Rightarrow> m | None \<Rightarrow> PInf)"

definition sortFeed :: "SortMode \<Rightarrow> ComputedJob list \<Rightarrow> ComputedJob list" where
  "sortFeed mode list =
     (case mode of
        newest \<Rightarrow> js_sort (\<lambda>a b. js_sub (creationTime b) (creationTime a)) list
      | tipHigh \<Rightarrow> js_sort (\<lambda>a b. js_sub (tipOf (job b)) (tipOf (job a))) list
      | tipLow \<Rightarrow> js_sort (\<lambda>a b. js_sub (tipOf (job a)) (tipOf (job b))) list
      | distance \<Rightarrow> js_sort (\<lambda>a b. js_sub (milesOrInfinity a) (milesOrInfinity b)) list)"

definition withinRadius :: "jsnum \<Rightarrow> ComputedJob \<Rightarrow> bool" where
  "withinRadius r x = (case miles x of Some m \<Rightarrow> js_le m r | None \<Rightarrow> False)"

definition filterFeed :: "clock \<Rightarrow> feed_state \<Rightarrow> ComputedJob list" where
  "filterFeed clk st =
     (let s = toLowerCase (normalize (JStr (searchText st)));
          z = normalize (JStr (zipFilter st));
          list0 = filter (\<lambda>x. isActive clk (job x)) (computed (jobs st) (origin st));
          list1 = (if z \<noteq> [] then filter (\<lambda>x. normalize (zip_field (job x)) = z) list0
                   else list0);
          list2 = (if s \<noteq> []
                   then filter (\<lambda>x.
                          let title = toLowerCase (normalize (title (job x)));
                              desc = toLowerCase (normalize (description (job x)))
                          in includes_str title s \<or> includes_str desc s) list1
                   else list1)
      in if enableRadius st
         then (case origin st of
                 None \<Rightarrow> []
               | Some _ \<Rightarrow> filter (withinRadius (radiusMiles st)) list2)
         else list2)"

definition visibleJobs :: "clock \<Rightarrow> feed_state \<Rightarrow> ComputedJob list" where
  "visibleJobs clk st = sortFeed (sort_mode st) (filterFeed clk st)"

text \<open>
  The order the specification names for each mode: the key of a job, and whether two
  jobs stand in the mode's order (descending for \<open>newest\<close> and \<open>tipHigh\<close>, ascending
  for \<open>tipLow\<close> and \<open>distance\<close>), by the comparison \<open>\<le>\<close> of JavaScript numbers.
\<close>

definition sort_key :: "SortMode \<Rightarrow> ComputedJob \<Rightarrow> jsnum" where
  "sort_key mode x =
     (case mode of
        newest \<Rightarrow> creationTime x
      | tipHigh \<Rightarrow> tipOf (job x)
      | tipLow \<Rightarrow> tipOf (job x)
      | distance \<Rightarrow> milesOrInfinity x)"

definition in_order :: "SortMode \<Rightarrow> ComputedJob \<Rightarrow> ComputedJob \<Rightarrow> bool" where
  "in_order mode a b =
     (if mode = newest \<or> mode = tipHigh then js_le (sort_key mode b) (sort_key mode a)
      else js_le (sort_key mode a) (sort_key mode b))"

definition ordered_by :: "SortMode \<Rightarrow> ComputedJob list \<Rightarrow> bool" where
  "ordered_by mode xs = sorted_wrt (in_order mode) xs"

section \<open>Loading pages\<close>

definition PAGE_SIZE :: nat where
  "PAGE_SIZE = 25"

datatype fetch_mode = mode_reset | mode_more

text \<open>
  \<open>fetchJobsPage\<close> up to its \<open>await getDocs(q)\<close>: the state it leaves and the cursor
  of the query it issues (\<open>None\<close> for the base query).
\<close>

definition fetchJobsPage_start :: "fetch_mode \<Rightarrow> feed_state \<Rightarrow> feed_state \<times> JobFeedItem option" where
  "fetchJobsPage_start m st =
     (let isReset = (m = mode_reset);
          st1 = st\<lparr>error := None\<rparr>;
          st2 = (if isReset then st1\<lparr>hasMore := True, lastDocRef := None\<rparr> else st1)
      in (st2, if \<not> isReset then lastDocRef st2 else None))"

text \<open>
  \<open>fetchJobsPage\<close> from the point where \<open>getDocs\<close> has resolved with the documents
  \<open>docs\<close> (each already carrying its id), and from the point where it has rejected.
\<close>

definition fetchJobsPage_resolved :: "fetch_mode \<Rightarrow> JobFeedItem list \<Rightarrow> feed_state \<Rightarrow> feed_state" where
  "fetchJobsPage_resolved m docs st =
     (let isReset = (m = mode_reset);
          items = docs;
          st1 = (if length docs > 0 then st\<lparr>lastDocRef := Some (last docs)\<rparr> else st);
          st2 = st1\<lparr>hasMore := (length docs = PAGE_SIZE)\<rparr>
      in if isReset then st2\<lparr>jobs := items\<rparr>
         else st2\<lparr>jobs := mergePage (jobs st2) items\<rparr>)"

definition fetchJobsPage_rejected :: "string \<Rightarrow> feed_state \<Rightarrow> feed_state" where
  "fetchJobsPage_rejected msg st = st\<lparr>error := Some msg\<rparr>"

text \<open>
  A call of \<open>fetchJobsPage\<close> that waits for its documents: who made it, in which mode,
  with which cursor, the \<open>cancelled\<close> variable of the effect that made it (set by the
  effect's cleanup), and whether it has been resumed.
\<close>

datatype caller = InitialLoad | Refresh | LoadMore

record task =
  started_by :: caller
  with_mode :: fetch_mode
  cursor :: "JobFeedItem option"
  cancelled :: bool
  settled :: bool

record page =
  state :: feed_state
  tasks :: "task list"

text \<open>What the caller does after \<open>await fetchJobsPage(...)\<close>.\<close>

definition after_fetch :: "task \<Rightarrow> feed_state \<Rightarrow> feed_state" where
  "after_fetch t st =
     (case started_by t of
        InitialLoad \<Rightarrow> (if \<not> cancelled t then st\<lparr>loading := False\<rparr> else st)
      | Refresh \<Rightarrow> st\<lparr>refreshing := False, snack := (True, ''Updated.'')\<rparr>
      | LoadMore \<Rightarrow> st\<lparr>loadingMore := False\<rparr>)"

definition begin_task :: "caller \<Rightarrow> fetch_mode \<Rightarrow> feed_state \<Rightarrow> page \<Rightarrow> page" where
  "begin_task c m st p =
     (let (st', cur) = fetchJobsPage_start m st
      in \<lparr> state = st',
           tasks = tasks p @ [\<lparr> started_by = c, with_mode = m, cursor = cur,
                                cancelled = False, settled = False \<rparr>] \<rparr>)"

datatype event =
    Mount
  | Unmount
  | ClickRefresh
  | ClickLoadMore
  | Resolved nat "JobFeedItem list"
  | Rejected nat string

text \<open>
  One event of the single-threaded event loop. The Refresh button is disabled while
  \<open>refreshing\<close>. The "Load more" button is rendered when the page is not
  \<open>loading\<close>, the feed is not empty and \<open>hasMore\<close> holds, and it is disabled while
  \<open>loadingMore\<close>. \<open>Resolved i docs\<close> and \<open>Rejected i msg\<close> resume the \<open>i\<close>-th
  call.
\<close>

fun step :: "clock \<Rightarrow> event \<Rightarrow> page \<Rightarrow> page" where
  "step clk Mount p = begin_task InitialLoad mode_reset ((state p)\<lparr>loading := True\<rparr>) p"
| "step clk Unmount p =
     p\<lparr>tasks := map (\<lambda>t. if started_by t = InitialLoad then t\<lparr>cancelled := True\<rparr> else t)
                    (tasks p)\<rparr>"
| "step clk ClickRefresh p =
     (if refreshing (state p) then p
      else begin_task Refresh mode_reset ((state p)\<lparr>refreshing := True\<rparr>) p)"
| "step clk ClickLoadMore p =
     (if loading (state p) \<or> visibleJobs clk (state p) = [] \<or> \<not> hasMore (state p)
         \<or> loadingMore (state p)
      then p
      else begin_task LoadMore mode_more ((state p)\<lparr>loadingMore := True\<rparr>) p)"
| "step clk (Resolved i docs) p =
     (if i < length (tasks p) \<and> \<not> settled (tasks p ! i)
      then let t = tasks p ! i
           in \<lparr> state = after_fetch t (fetchJobsPage_resolved (with_mode t) docs (state p)),
                tasks = (tasks p)[i := t\<lparr>settled := True\<rparr>] \<rparr>
      else p)"
| "step clk (Rejected i msg) p =
     (if i < length (tasks p) \<and> \<not> settled (tasks p ! i)
      then let t = tasks p ! i
           in \<lparr> state = after_fetch t (fetchJobsPage_rejected msg (state p)),
                tasks = (tasks p)[i := t\<lparr>settled := True\<rparr>] \<rparr>
      else p)"

definition run :: "clock \<Rightarrow> event list \<Rightarrow> page \<Rightarrow> page" where
  "run clk es p = foldl (\<lambda>q e. step clk e q) p es"

section \<open>Geocoding a ZIP\<close>









section \<open>Example data\<close>

text \<open>A job with the given id and every other field absent.\<close>

definition bare_job :: "string \<Rightarrow> JobFeedItem" where
  "bare_job i =
     \<lparr> id_field = i, userId = None, title = JUndefined, description = JUndefined,
       address = None, zip_field = JUndefined, tip = JUndefined, pay = JUndefined,
       standingOffer = None, endDate = JUndefined, creationDate = JUndefined,
       location = JUndefined, latitude = JUndefined, longitude = JUndefined,
       lat_field = JUndefined, lng_field = JUndefined \<rparr>"

text \<open>14 November 2023, 22:13:20 UTC, in a zone five hours behind UTC.\<close>

definition clock0 :: clock where
  "clock0 =
     \<lparr> now = 1700000000000, offsetAtUTC = (\<lambda>t. - 18000000),
       offsetAtLocal = (\<lambda>t. - 18000000) \<rparr>"




definition job_both :: JobFeedItem where
  "job_both = bare_job ''b''
     \<lparr> location := JObj [(''latitude'', JNum (Fin 40)), (''longitude'', JNum (Fin (- 74)))],
       lat_field := JNum (Fin 1), lng_field := JNum (Fin 2) \<rparr>"

definition job_nan :: JobFeedItem where
  "job_nan = bare_job ''n''
     \<lparr> location := JObj [(''latitude'', JNum NaN), (''longitude'', JNum (Fin 0))],
       lat_field := JNum (Fin 1), lng_field := JNum (Fin 2) \<rparr>"

definition job_text_date :: JobFeedItem where
  "job_text_date =
     bare_job ''t'' \<lparr> standingOffer := Some False, endDate := JStr (u16 ''2020-01-01'') \<rparr>"

definition job_expired :: JobFeedItem where
  "job_expired = bare_job ''e''
     \<lparr> standingOffer := Some False,
       endDate := JTimestamp (ToDateReturns (1700000000000 - 86400000)) \<rparr>"

definition job_today :: JobFeedItem where
  "job_today = bare_job ''d''
     \<lparr> standingOffer := Some False, endDate := JTimestamp (ToDateReturns 1699990000000) \<rparr>"

definition state0 :: feed_state where
  "state0 = initial_state \<lparr> jobs := [job_expired, job_today, job_text_date] \<rparr>"


definition point_a :: LatLng where
  "point_a = \<lparr> lat = Fin 40, lng = Fin (- 74) \<rparr>"



definition state_radius :: feed_state where
  "state_radius =
     initial_state
     \<lparr> jobs := [job_nan, bare_job ''x'', job_both], origin := Some point_a,
       enableRadius := True, sort_mode := distance \<rparr>"

definition with_tip :: "string \<Rightarrow> jsnum \<Rightarrow> ComputedJob" where
  "with_tip i n = \<lparr> job = bare_job i\<lparr>tip := JNum n\<rparr>, miles = None, hasCoords = False \<rparr>"

definition with_miles :: "string \<Rightarrow> jsnum option \<Rightarrow> ComputedJob" where
  "with_miles i m = \<lparr> job = bare_job i, miles = m, hasCoords = (m \<noteq> None) \<rparr>"

definition tips_example :: "ComputedJob list" where
  "tips_example = [with_tip ''a'' (Fin 1), with_tip ''b'' (Fin 3), with_tip ''c'' (Fin 2)]"

definition tips_nan :: "ComputedJob list" where
  "tips_nan = [with_tip ''a'' (Fin 1), with_tip ''b'' NaN, with_tip ''c'' (Fin 2)]"

definition miles_example :: "ComputedJob list" where
  "miles_example = [with_miles ''a'' None, with_miles ''b'' (Some (Fin 12)), with_miles ''c'' (Some (Fin 2))]"







definition initial_page :: page where
  "initial_page = \<lparr> state = initial_state, tasks = [] \<rparr>"

text \<open>
  The page mounts, the user presses Refresh while the first request is in flight, the
  refresh is answered first, and the first request is answered last with an older page.
\<close>

definition race :: "event list" where
  "race = [Mount, ClickRefresh,
           Resolved 1 [bare_job ''new'', bare_job ''old''],
           Resolved 0 [bare_job ''old'']]"

section \<open>Overflow\<close>

lemma MAX_VALUE_large: "2 ^ 100 \<le> MAX_VALUE"
proof -
  have "(2::real) ^ 100 \<le> 2 ^ 971" by (rule power_increasing) simp_all
  also have "\<dots> \<le> (2 ^ 53 - 1) * 2 ^ 971" by simp
  finally show ?thesis by (simp add: MAX_VALUE_def)
qed

lemma MAX_VALUE_pos: "0 < MAX_VALUE"
  using MAX_VALUE_large by (smt (verit) zero_less_power)

lemma overflow_Fin: "\<bar>r\<bar> \<le> MAX_VALUE \<Longrightarrow> overflow r = Fin r"
  by (auto simp: overflow_def)

lemma overflow_small: "\<bar>r\<bar> \<le> 2 ^ 100 \<Longrightarrow> overflow r = Fin r"
  using MAX_VALUE_large by (intro overflow_Fin) linarith


lemma positive_overflow: "positive (overflow r) \<longleftrightarrow> r > 0"
  using MAX_VALUE_pos by (auto simp: overflow_def)

lemma isFinite_overflow: "isFinite (overflow r) \<longleftrightarrow> \<bar>r\<bar> \<le> MAX_VALUE"
  by (auto simp: overflow_def)

section \<open>Coordinate extraction\<close>

lemma first_shape_any:
  "first_shape (\<lambda>_. True) ((u, v) # rest) =
     (case (number_or_undefined u, number_or_undefined v) of
        (Some a, Some b) \<Rightarrow> Some \<lparr>lat = a, lng = b\<rparr>
      | _ \<Rightarrow> first_shape (\<lambda>_. True) rest)"
  by (cases u; cases v) simp_all

lemma jobCoords_first: "jobCoords j = first_shape (\<lambda>_. True) (shapes j)"
  unfolding jobCoords_def shapes_def first_shape_any nested_def
  by (simp split: option.splits bool.splits)

lemma first_shape_None:
  "first_shape test xs = None \<longleftrightarrow>
     (\<forall>(u, v) \<in> set xs. \<forall>a b. u = JNum a \<and> v = JNum b \<longrightarrow> \<not> (test a \<and> test b))"
  by (induction test xs rule: first_shape.induct) auto

lemma any_number_eq: "any_number = (\<lambda>_. True)"
  by (simp add: any_number_def fun_eq_iff)

text \<open>
  C1, as the code has it. The extractor tries the nested \<open>latitude\<close>/\<open>longitude\<close>,
  the nested \<open>lat\<close>/\<open>lng\<close>, the top-level \<open>latitude\<close>/\<open>longitude\<close> and the top-level
  \<open>lat\<close>/\<open>lng\<close> in this order and returns the first shape whose two values are numbers
  (\<open>typeof\<close> is \<open>"number"\<close>: NaN and the infinities pass); it returns null exactly when
  no shape is a pair of numbers. A nested \<open>{latitude, longitude}\<close> pair of numbers is
  returned whatever the top-level fields hold.
\<close>

theorem jobCoords_precedence:
  "jobCoords j = first_shape any_number (shapes j)
   \<and> (jobCoords j = None \<longleftrightarrow>
        (\<forall>(u, v) \<in> set (shapes j). \<not> (\<exists>a b. u = JNum a \<and> v = JNum b)))
   \<and> (\<forall>kvs a b. location j = JObj kvs \<and> map_of kvs ''latitude'' = Some (JNum a)
          \<and> map_of kvs ''longitude'' = Some (JNum b)
        \<longrightarrow> jobCoords j = Some \<lparr>lat = a, lng = b\<rparr>)"
proof (intro conjI allI impI)
  show eq: "jobCoords j = first_shape any_number (shapes j)"
    by (simp add: jobCoords_first any_number_eq)
  show "jobCoords j = None \<longleftrightarrow>
        (\<forall>(u, v) \<in> set (shapes j). \<not> (\<exists>a b. u = JNum a \<and> v = JNum b))"
    unfolding eq first_shape_None by (auto simp: any_number_def)
next
  fix kvs a b
  assume "location j = JObj kvs \<and> map_of kvs ''latitude'' = Some (JNum a)
          \<and> map_of kvs ''longitude'' = Some (JNum b)"
  then show "jobCoords j = Some \<lparr>lat = a, lng = b\<rparr>"
    by (simp add: jobCoords_def)
qed

theorem jobCoords_precedence_witness:
  "jobCoords job_both = Some \<lparr>lat = Fin 40, lng = Fin (-74)\<rparr>
   \<and> jobCoords (bare_job ''x'') = None"
  using jobCoords_precedence [of job_both] jobCoords_precedence [of "bare_job ''x''"]
  by (simp add: job_both_def bare_job_def shapes_def nested_def any_number_def)

text \<open>
  The test is not finiteness: with a NaN in the nested shape and finite top-level
  \<open>lat\<close>/\<open>lng\<close>, the code returns the nested shape, and the first shape of two finite
  numbers is the top-level one.
\<close>

theorem jobCoords_counterexample:
  "jobCoords job_nan = Some \<lparr>lat = NaN, lng = Fin 0\<rparr>
   \<and> extractCoords_spec job_nan = Some \<lparr>lat = Fin 1, lng = Fin 2\<rparr>
   \<and> jobCoords job_nan \<noteq> extractCoords_spec job_nan"
  by (simp add: jobCoords_def extractCoords_spec_def shapes_def nested_def job_nan_def bare_job_def)

section \<open>Activity\<close>





lemma isActive_no_date: "tsToDate (endDate j) = None \<Longrightarrow> isActive clk j"
  by (simp add: isActive_def)





lemma tsToDate_None:
  "(\<forall>t. v \<noteq> JDate t) \<Longrightarrow> (\<forall>t. v \<noteq> JTimestamp (ToDateReturns t)) \<Longrightarrow> tsToDate v = None"
  by (cases v) (auto split: toDate_result.splits)

subsection \<open>The sort is a permutation, and the feed holds active jobs only\<close>

lemma mset_js_insert: "mset (js_insert cmp x xs) = add_mset x (mset xs)"
  by (induction xs) auto

lemma mset_js_sort: "mset (js_sort cmp xs) = mset xs"
  unfolding js_sort_def by (induction xs) (auto simp: mset_js_insert)

lemma mset_sortFeed: "mset (sortFeed m xs) = mset xs"
  by (cases m) (simp_all add: sortFeed_def mset_js_sort)

lemma set_sortFeed: "set (sortFeed m xs) = set xs"
  using mset_sortFeed [of m xs] by (metis set_mset_mset)



lemma trim_Nil: "trim [] = []" by (simp add: trim_def)

lemma filterFeed_unfiltered:
  assumes "trim (zipFilter st) = []" "trim (searchText st) = []" "\<not> enableRadius st"
  shows "filterFeed clk st = filter (\<lambda>x. isActive clk (job x)) (computed (jobs st) (origin st))"
  using assms unfolding filterFeed_def by (simp add: Let_def toLowerCase_def)

lemma job_computed: "job ` set (computed js oc) = set js"
  unfolding computed_def by (auto simp: Let_def image_iff)




text \<open>
  C10. When the end date is neither a Date nor a Timestamp-like value whose
  \<open>toDate\<close> returns (it is of another kind, or \<open>toDate\<close> throws), \<open>tsToDate\<close> gives
  null and the job is active like one without end date, also when it is no standing
  offer; with no ZIP filter, no search text and the radius off it is in the feed.
\<close>

theorem isActive_unconvertible_endDate:
  "(\<forall>t. endDate j \<noteq> JDate t) \<and> (\<forall>t. endDate j \<noteq> JTimestamp (ToDateReturns t))
   \<longrightarrow> tsToDate (endDate j) = None \<and> isActive clk j
       \<and> (j \<in> set (jobs st) \<and> trim (zipFilter st) = [] \<and> trim (searchText st) = []
            \<and> \<not> enableRadius st
          \<longrightarrow> j \<in> job ` set (visibleJobs clk st))"
proof (intro impI conjI)
  assume a: "(\<forall>t. endDate j \<noteq> JDate t) \<and> (\<forall>t. endDate j \<noteq> JTimestamp (ToDateReturns t))"
  then show n: "tsToDate (endDate j) = None"
    using tsToDate_None by blast
  then show act: "isActive clk j"
    by (rule isActive_no_date)
  assume b: "j \<in> set (jobs st) \<and> trim (zipFilter st) = [] \<and> trim (searchText st) = []
            \<and> \<not> enableRadius st"
  then obtain x where x: "x \<in> set (computed (jobs st) (origin st))" "job x = j"
    using job_computed [of "jobs st" "origin st"] by (metis imageE)
  with act b have "x \<in> set (filterFeed clk st)"
    by (simp add: filterFeed_unfiltered)
  then show "j \<in> job ` set (visibleJobs clk st)"
    using x(2) by (auto simp: visibleJobs_def set_sortFeed)
qed

theorem isActive_unconvertible_endDate_witness:
  "tsToDate (JStr (u16 ''2020-01-01'')) = None \<and> isActive clock0 job_text_date
   \<and> standingOffer job_text_date = Some False
   \<and> job_text_date \<in> job ` set (visibleJobs clock0 state0)"
  using isActive_unconvertible_endDate [of job_text_date clock0 state0]
  by (simp add: job_text_date_def bare_job_def state0_def initial_state_def trim_def)

section \<open>Tip resolution\<close>

text \<open>
  C4. The resolved tip is the \<open>tip\<close> field when that is a number (zero included),
  otherwise the legacy \<open>pay\<close> field when that is a number, otherwise 0. A record
  without \<open>tip\<close> and with \<open>pay = 15\<close> resolves to 15; one with \<open>tip = 0\<close> and
  \<open>pay = 15\<close> resolves to 0.
\<close>

theorem tipOf_resolution:
  "(\<forall>n. tip j = JNum n \<longrightarrow> tipOf j = n)
   \<and> ((\<forall>n. tip j \<noteq> JNum n) \<longrightarrow> (\<forall>p. pay j = JNum p \<longrightarrow> tipOf j = p))
   \<and> ((\<forall>n. tip j \<noteq> JNum n) \<and> (\<forall>p. pay j \<noteq> JNum p) \<longrightarrow> tipOf j = Fin 0)
   \<and> (tip j = JUndefined \<and> pay j = JNum (Fin 15) \<longrightarrow> tipOf j = Fin 15)
   \<and> (tip j = JNum (Fin 0) \<and> pay j = JNum (Fin 15) \<longrightarrow> tipOf j = Fin 0)"
  by (cases "tip j"; cases "pay j") (simp_all add: tipOf_def)

theorem tipOf_resolution_witness:
  "tipOf (bare_job ''a''\<lparr>tip := JNum (Fin 7)\<rparr>) = Fin 7
   \<and> tipOf (bare_job ''a''\<lparr>tip := JStr (u16 ''7''), pay := JNum (Fin 9)\<rparr>) = Fin 9
   \<and> tipOf (bare_job ''a'') = Fin 0
   \<and> tipOf (bare_job ''a''\<lparr>pay := JNum (Fin 15)\<rparr>) = Fin 15
   \<and> tipOf (bare_job ''a''\<lparr>tip := JNum (Fin 0), pay := JNum (Fin 15)\<rparr>) = Fin 0"
  using tipOf_resolution [of "bare_job ''a''\<lparr>tip := JNum (Fin 7)\<rparr>"]
        tipOf_resolution [of "bare_job ''a''\<lparr>tip := JStr (u16 ''7''), pay := JNum (Fin 9)\<rparr>"]
        tipOf_resolution [of "bare_job ''a''"]
        tipOf_resolution [of "bare_job ''a''\<lparr>pay := JNum (Fin 15)\<rparr>"]
        tipOf_resolution [of "bare_job ''a''\<lparr>tip := JNum (Fin 0), pay := JNum (Fin 15)\<rparr>"]
  by (simp add: bare_job_def)

section \<open>Merging a further page\<close>

lemma push_unseen_eq: "push_unseen seen merged items = merged @ filter (\<lambda>it. id_field it \<notin> seen) items"
  by (induction items arbitrary: merged) auto

lemma mergePage_eq: "mergePage prev items = prev @ filter (\<lambda>it. id_field it \<notin> set (map id_field prev)) items"
  by (simp add: mergePage_def push_unseen_eq)

lemma mergePage_distinct:
  assumes "distinct (map id_field prev)" "distinct (map id_field items)"
  shows "distinct (map id_field (mergePage prev items))"
  using assms unfolding mergePage_eq
  by (auto simp: distinct_map_filter image_iff)

text \<open>
  C5, as the code has it. The merge keeps the previous list as a prefix, in its order,
  and appends, in their order, the new items whose id is not in the previous list. The
  merged list has no duplicate id when the previous list has none and the new page
  itself has none.
\<close>

theorem mergePage_appends_unseen:
  "mergePage prev items = prev @ filter (\<lambda>it. id_field it \<notin> set (map id_field prev)) items
   \<and> (distinct (map id_field prev) \<and> distinct (map id_field items)
      \<longrightarrow> distinct (map id_field (mergePage prev items)))"
  using mergePage_eq mergePage_distinct by blast

theorem mergePage_appends_unseen_witness:
  "mergePage [bare_job ''a'', bare_job ''b''] [bare_job ''b'', bare_job ''c'']
     = [bare_job ''a'', bare_job ''b'', bare_job ''c'']
   \<and> distinct (map id_field (mergePage [bare_job ''a'', bare_job ''b''] [bare_job ''b'', bare_job ''c'']))"
  using mergePage_appends_unseen [of "[bare_job ''a'', bare_job ''b'']" "[bare_job ''b'', bare_job ''c'']"]
  by (simp add: bare_job_def)

text \<open>
  The set of seen ids is not extended while the page is appended: an id that the page
  carries twice and the previous list does not carry is appended twice.
\<close>

theorem mergePage_counterexample:
  "distinct (map id_field [bare_job ''a''])
   \<and> \<not> distinct (map id_field (mergePage [bare_job ''a''] [bare_job ''b'', bare_job ''b'']))"
  by (simp add: mergePage_def bare_job_def)

section \<open>Distance\<close>














text \<open>Conversion to radians is finite exactly when the product with \<open>pi\<close> is.\<close>

lemma pi_le_4: "pi \<le> 4"
  using pi_less_4 by simp

lemma toRad_Fin:
  assumes "\<bar>x\<bar> * pi \<le> MAX_VALUE"
  shows "toRad (Fin x) = Fin (x * pi / 180)"
proof -
  have 1: "\<bar>x * pi\<bar> \<le> MAX_VALUE"
    using assms by (simp add: abs_mult)
  have "\<bar>x * pi / 180\<bar> \<le> \<bar>x * pi\<bar>"
    by simp
  then have 2: "\<bar>x * pi / 180\<bar> \<le> MAX_VALUE"
    using 1 by linarith
  show ?thesis
    by (simp add: toRad_def overflow_Fin [OF 1] overflow_Fin [OF 2])
qed

lemma toRad_finite_iff: "isFinite (toRad x) \<longleftrightarrow> (\<exists>r. x = Fin r \<and> \<bar>r\<bar> * pi \<le> MAX_VALUE)"
proof (cases x)
  case (Fin r)
  show ?thesis
  proof (cases "\<bar>r\<bar> * pi \<le> MAX_VALUE")
    case True
    then show ?thesis by (simp add: Fin toRad_Fin)
  next
    case False
    then have "r * pi > MAX_VALUE \<or> r * pi < - MAX_VALUE"
      by (cases "r \<ge> 0") (auto simp: abs_if)
    then have "js_mul (Fin r) (Fin pi) = PInf \<or> js_mul (Fin r) (Fin pi) = NInf"
      using MAX_VALUE_pos by (auto simp: overflow_def)
    then have "\<not> isFinite (toRad x)"
      by (auto simp: toRad_def Fin)
    then show ?thesis using False by (simp add: Fin)
  qed
qed (simp_all add: toRad_def Let_def)

lemma central_angle_cases:
  "central_angle h =
     (case h of
        Fin r \<Rightarrow> (if r < 0 then NaN else Fin (2 * arcsin (min 1 (sqrt r))))
      | PInf \<Rightarrow> Fin pi
      | _ \<Rightarrow> NaN)"
proof (cases h)
  case (Fin r)
  show ?thesis
  proof (cases "r < 0")
    case True
    then show ?thesis by (simp add: Fin central_angle_def js_min_def)
  next
    case False
    define v where "v = min 1 (sqrt r)"
    have v: "0 \<le> v" "v \<le> 1"
      using False by (simp_all add: v_def)
    have m: "js_min (Fin 1) (js_sqrt h) = Fin v"
      using False by (simp add: Fin js_min_def v_def min_def)
    have "0 \<le> arcsin v" "arcsin v \<le> pi / 2"
      using v arcsin_bounded [of v] arcsin_le_arcsin [of 0 v] by simp_all
    then have "\<bar>2 * arcsin v\<bar> \<le> 2 ^ 100"
      using pi_less_4 by simp
    then have mul: "js_mul (Fin 2) (Fin (arcsin v)) = Fin (2 * arcsin v)"
      by (simp add: overflow_small)
    have "central_angle h = js_mul (Fin 2) (js_asin (Fin v))"
      by (simp only: central_angle_def m)
    also have "\<dots> = Fin (2 * arcsin v)"
      using v mul by simp
    finally show ?thesis
      using False by (simp add: Fin v_def)
  qed
next
  case PInf
  have "\<bar>2 * arcsin 1\<bar> \<le> (2::real) ^ 100"
    using pi_less_4 by simp
  then show ?thesis
    by (simp add: PInf central_angle_def js_min_def overflow_small)
qed (simp_all add: central_angle_def js_min_def)

lemma central_angle_range:
  "central_angle h = NaN \<or> (\<exists>c. central_angle h = Fin c \<and> 0 \<le> c \<and> c \<le> pi)"
proof (cases h)
  case (Fin r)
  show ?thesis
  proof (cases "r < 0")
    case True
    then show ?thesis by (simp add: central_angle_cases Fin)
  next
    case False
    define v where "v = min 1 (sqrt r)"
    have v: "0 \<le> v" "v \<le> 1"
      using False by (simp_all add: v_def)
    have "0 \<le> arcsin v" "arcsin v \<le> pi / 2"
      using v arcsin_bounded [of v] arcsin_le_arcsin [of 0 v] by simp_all
    then show ?thesis
      using False by (simp add: central_angle_cases Fin v_def)
  qed
qed (simp_all add: central_angle_cases)


lemma asin_unclamped: "1 < r \<Longrightarrow> js_asin (js_sqrt (Fin r)) = NaN"
  by simp


lemma miles_of_angle:
  assumes "0 \<le> c" "c \<le> pi"
  shows "js_mul (Fin (39587613 / 10000)) (Fin c) = Fin (39587613 / 10000 * c)"
proof -
  have "\<bar>39587613 / 10000 * c\<bar> \<le> 39587613 / 10000 * 4"
    using assms pi_less_4 by (simp add: abs_mult)
  then have "\<bar>39587613 / 10000 * c\<bar> \<le> 2 ^ 100"
    by simp
  then show ?thesis by (simp add: overflow_small)
qed

lemma haversineMiles_range:
  "haversineMiles a b = NaN
   \<or> (\<exists>m. haversineMiles a b = Fin m \<and> 0 \<le> m \<and> m \<le> 39587613 / 10000 * pi)"
proof -
  consider "central_angle (haversine_h a b) = NaN"
    | c where "central_angle (haversine_h a b) = Fin c" "0 \<le> c" "c \<le> pi"
    using central_angle_range by blast
  then show ?thesis
  proof cases
    case 1
    then show ?thesis by (simp add: haversineMiles_def)
  next
    case 2
    then have "haversineMiles a b = Fin (39587613 / 10000 * c)"
      by (simp only: haversineMiles_def Let_def miles_of_angle)
    moreover have "0 \<le> 39587613 / 10000 * c" "39587613 / 10000 * c \<le> 39587613 / 10000 * pi"
      using 2 by simp_all
    ultimately show ?thesis by blast
  qed
qed

lemma haversineMiles_NaN: "haversine_h a b = NaN \<Longrightarrow> haversineMiles a b = NaN"
  by (simp add: haversineMiles_def central_angle_cases)

lemma js_mul_NaN_right: "js_mul x NaN = NaN"
  by (cases x) auto

lemma js_add_NaN_right: "js_add x NaN = NaN"
  by (cases x) auto

lemma js_sub_self: "js_sub x x = (if isFinite x then Fin 0 else NaN)"
  by (cases x) (simp_all add: js_sub_def overflow_small)

lemma toRad_0: "toRad (Fin 0) = Fin 0"
  by (simp add: toRad_def overflow_small)

lemma toRad_NaN: "toRad NaN = NaN"
  by (simp add: toRad_def)

lemma js_cos_not_finite: "\<not> isFinite x \<Longrightarrow> js_cos x = NaN"
  by (cases x) auto

lemma haversine_h_self:
  "haversine_h a a = (if isFinite (toRad (lat a)) \<and> isFinite (lng a) then Fin 0 else NaN)"
proof (cases "isFinite (toRad (lat a)) \<and> isFinite (lng a)")
  case True
  then obtain x y where xy: "lat a = Fin x" "\<bar>x\<bar> * pi \<le> MAX_VALUE" "lng a = Fin y"
    by (cases "lng a") (auto simp: toRad_finite_iff)
  have c: "\<bar>cos (x * pi / 180) * cos (x * pi / 180)\<bar> \<le> 2 ^ 100"
  proof -
    have "\<bar>cos (x * pi / 180) * cos (x * pi / 180)\<bar> \<le> 1 * 1"
      unfolding abs_mult by (intro mult_mono) simp_all
    then show ?thesis by simp
  qed
  show ?thesis
    using True xy c
    by (simp add: haversine_h_def js_sub_self toRad_0 toRad_Fin overflow_small)
next
  case False
  then consider "\<not> isFinite (lat a)" | "isFinite (lat a)" "\<not> isFinite (toRad (lat a))"
    | "\<not> isFinite (lng a)"
    by blast
  then have "haversine_h a a = NaN"
  proof cases
    case 1
    then show ?thesis
      by (simp add: haversine_h_def js_sub_self toRad_NaN js_add.simps)
  next
    case 2
    then show ?thesis
      by (simp add: haversine_h_def js_cos_not_finite js_add_NaN_right)
  next
    case 3
    then show ?thesis
      by (simp add: haversine_h_def js_sub_self toRad_NaN js_mul_NaN_right js_add_NaN_right)
  qed
  then show ?thesis using False by simp
qed

lemma haversineMiles_self:
  "haversineMiles a a = (if isFinite (toRad (lat a)) \<and> isFinite (lng a) then Fin 0 else NaN)"
  by (simp add: haversineMiles_def haversine_h_self central_angle_cases overflow_small)







lemma haversineMiles_lat_NaN: "haversineMiles a \<lparr>lat = NaN, lng = l\<rparr> = NaN"
  by (simp add: haversineMiles_NaN haversine_h_def js_sub_def toRad_NaN)

lemma small_radians: "\<bar>x\<bar> \<le> 1000 \<Longrightarrow> \<bar>x\<bar> * pi \<le> MAX_VALUE"
proof -
  assume "\<bar>x\<bar> \<le> 1000"
  then have "\<bar>x\<bar> * pi \<le> 1000 * 4"
    using pi_less_4 by (intro mult_mono) simp_all
  also have "\<dots> \<le> 2 ^ 100" by simp
  finally show ?thesis using MAX_VALUE_large by linarith
qed





section \<open>The radius filter\<close>

lemma computed_entry:
  assumes "x \<in> set (computed js oc)"
  shows "miles x = (case oc of None \<Rightarrow> None
                    | Some p \<Rightarrow> map_option (haversineMiles p) (jobCoords (job x)))"
    and "hasCoords x = (jobCoords (job x) \<noteq> None)"
    and "job x \<in> set js"
  using assms unfolding computed_def
  by (auto simp: Let_def split: option.splits)

lemma filterFeed_subset: "set (filterFeed clk st) \<subseteq> set (computed (jobs st) (origin st))"
  unfolding filterFeed_def by (auto simp: Let_def split: option.splits)

lemma filterFeed_no_origin:
  "enableRadius st \<Longrightarrow> origin st = None \<Longrightarrow> filterFeed clk st = []"
  by (simp add: filterFeed_def Let_def)

lemma filterFeed_radius:
  "enableRadius st \<Longrightarrow> origin st = Some oc \<Longrightarrow>
   filterFeed clk st
     = filter (withinRadius (radiusMiles st)) (filterFeed clk (st\<lparr>enableRadius := False\<rparr>))"
  by (simp add: filterFeed_def Let_def)

lemma js_sort_Nil: "js_sort cmp [] = []"
  by (simp add: js_sort_def)

lemma sortFeed_Nil: "sortFeed mode [] = []"
  by (cases mode) (simp_all add: sortFeed_def js_sort_Nil)

lemma withinRadius_finite:
  assumes "x \<in> set (computed js (Some oc))"
  shows "withinRadius r x \<longleftrightarrow> (\<exists>m. miles x = Some (Fin m) \<and> js_le (Fin m) r)"
proof (cases "jobCoords (job x)")
  case None
  then show ?thesis
    using computed_entry(1) [OF assms] by (simp add: withinRadius_def)
next
  case (Some c)
  then have m: "miles x = Some (haversineMiles oc c)"
    using computed_entry(1) [OF assms] by simp
  from haversineMiles_range [of oc c] show ?thesis
    by (auto simp: withinRadius_def m)
qed

text \<open>
  C2. With the radius filter on and no origin the feed is empty, whatever the jobs.
  With an origin, the feed holds exactly those jobs of the feed without radius filter
  whose distance to the origin, computed by \<open>haversineMiles\<close> from the job's
  coordinates, is a finite number not above the radius; a job without resolvable
  coordinates is not in it.
\<close>

theorem radius_filter:
  "(enableRadius st \<and> origin st = None \<longrightarrow> visibleJobs clk st = [])
   \<and> (\<forall>oc. enableRadius st \<and> origin st = Some oc \<longrightarrow>
        mset (visibleJobs clk st)
          = filter_mset (\<lambda>x. \<exists>m. miles x = Some (Fin m) \<and> js_le (Fin m) (radiusMiles st))
              (mset (visibleJobs clk (st\<lparr>enableRadius := False\<rparr>)))
        \<and> (\<forall>x \<in> set (visibleJobs clk (st\<lparr>enableRadius := False\<rparr>)).
              miles x = map_option (haversineMiles oc) (jobCoords (job x)))
        \<and> (\<forall>x \<in> set (visibleJobs clk st). jobCoords (job x) \<noteq> None))"
proof (intro conjI allI impI)
  assume "enableRadius st \<and> origin st = None"
  then show "visibleJobs clk st = []"
    by (simp add: visibleJobs_def filterFeed_no_origin sortFeed_Nil)
next
  fix oc
  assume a: "enableRadius st \<and> origin st = Some oc"
  let ?off = "st\<lparr>enableRadius := False\<rparr>"
  have sub: "set (filterFeed clk ?off) \<subseteq> set (computed (jobs st) (Some oc))"
    using filterFeed_subset [of clk ?off] a by simp
  have "filter_mset (withinRadius (radiusMiles st)) (mset (filterFeed clk ?off))
      = filter_mset (\<lambda>x. \<exists>m. miles x = Some (Fin m) \<and> js_le (Fin m) (radiusMiles st))
          (mset (filterFeed clk ?off))"
    using sub by (intro filter_mset_cong refl) (auto simp: withinRadius_finite)
  then show "mset (visibleJobs clk st)
          = filter_mset (\<lambda>x. \<exists>m. miles x = Some (Fin m) \<and> js_le (Fin m) (radiusMiles st))
              (mset (visibleJobs clk ?off))"
    using a by (simp add: visibleJobs_def mset_sortFeed filterFeed_radius [of st oc])
  show "\<forall>x \<in> set (visibleJobs clk ?off).
          miles x = map_option (haversineMiles oc) (jobCoords (job x))"
    using sub computed_entry(1) [of _ "jobs st" "Some oc"]
    by (auto simp: visibleJobs_def set_sortFeed)
  have "set (filterFeed clk st) \<subseteq> set (computed (jobs st) (Some oc))"
    using filterFeed_subset [of clk st] a by simp
  moreover have "\<forall>x \<in> set (filterFeed clk st). withinRadius (radiusMiles st) x"
    using a by (simp add: filterFeed_radius [of st oc])
  ultimately show "\<forall>x \<in> set (visibleJobs clk st). jobCoords (job x) \<noteq> None"
    using computed_entry(1) [of _ "jobs st" "Some oc"]
    by (fastforce simp: visibleJobs_def set_sortFeed withinRadius_def split: option.splits)
qed

theorem radius_filter_witness:
  "visibleJobs clock0 (state_radius\<lparr>origin := None\<rparr>) = []
   \<and> map (id_field \<circ> job) (visibleJobs clock0 state_radius) = [''b'']
   \<and> mset (visibleJobs clock0 state_radius)
       = filter_mset (\<lambda>x. \<exists>m. miles x = Some (Fin m) \<and> js_le (Fin m) (Fin 10))
           (mset (visibleJobs clock0 (state_radius\<lparr>enableRadius := False\<rparr>)))"
proof -
  have v: "map (id_field \<circ> job) (visibleJobs clock0 state_radius) = [''b'']"
    by (simp add: visibleJobs_def filterFeed_def sortFeed_def js_sort_def computed_def
        state_radius_def initial_state_def job_both_def job_nan_def bare_job_def clock0_def point_a_def
        isActive_def jobCoords_def trim_def toLowerCase_def withinRadius_def
        haversineMiles_self haversineMiles_lat_NaN toRad_Fin [OF small_radians]
        js_sub_def overflow_small)
  have e: "enableRadius state_radius" "origin state_radius = Some point_a"
    "radiusMiles state_radius = Fin 10"
    by (simp_all add: state_radius_def initial_state_def)
  show ?thesis
    using radius_filter [of "state_radius\<lparr>origin := None\<rparr>" clock0]
      radius_filter [of state_radius clock0] v e
    by simp
qed

section \<open>Sorting\<close>

lemma positive_js_sub: "a \<noteq> NaN \<Longrightarrow> b \<noteq> NaN \<Longrightarrow> positive (js_sub a b) \<longleftrightarrow> \<not> js_le a b"
  by (cases a; cases b) (auto simp: js_sub_def positive_overflow)

lemma js_le_total: "a \<noteq> NaN \<Longrightarrow> b \<noteq> NaN \<Longrightarrow> js_le a b \<or> js_le b a"
  by (cases a; cases b) auto

lemma js_le_trans: "js_le a b \<Longrightarrow> js_le b c \<Longrightarrow> js_le a c"
  by (cases a; cases b; cases c) auto

lemma set_js_insert: "set (js_insert cmp x xs) = insert x (set xs)"
  by (induction xs) auto

lemma sorted_js_insert:
  assumes tr: "\<And>a b c. le a b \<Longrightarrow> le b c \<Longrightarrow> le a c"
    and tot: "\<And>a b. a \<in> S \<Longrightarrow> b \<in> S \<Longrightarrow> le a b \<or> le b a"
    and pos: "\<And>a b. a \<in> S \<Longrightarrow> b \<in> S \<Longrightarrow> positive (cmp a b) \<longleftrightarrow> \<not> le a b"
    and "x \<in> S" "set xs \<subseteq> S" "sorted_wrt le xs"
  shows "sorted_wrt le (js_insert cmp x xs)"
  using assms(4-)
proof (induction xs)
  case Nil
  then show ?case by simp
next
  case (Cons y ys)
  show ?case
  proof (cases "positive (cmp x y)")
    case True
    then have "le y x"
      using pos [of x y] tot [of x y] Cons.prems by auto
    then show ?thesis
      using True Cons by (auto simp: set_js_insert)
  next
    case False
    then have "le x y"
      using pos [of x y] Cons.prems by auto
    then show ?thesis
      using False Cons.prems tr by auto
  qed
qed

lemma set_js_sort: "set (js_sort cmp xs) = set xs"
  using mset_js_sort [of cmp xs] by (metis set_mset_mset)

lemma js_sort_Cons: "js_sort cmp (x # xs) = js_insert cmp x (js_sort cmp xs)"
  by (simp add: js_sort_def)

lemma sorted_js_sort:
  assumes tr: "\<And>a b c. le a b \<Longrightarrow> le b c \<Longrightarrow> le a c"
    and tot: "\<And>a b. a \<in> S \<Longrightarrow> b \<in> S \<Longrightarrow> le a b \<or> le b a"
    and pos: "\<And>a b. a \<in> S \<Longrightarrow> b \<in> S \<Longrightarrow> positive (cmp a b) \<longleftrightarrow> \<not> le a b"
    and "set xs \<subseteq> S"
  shows "sorted_wrt le (js_sort cmp xs)"
  using assms(4)
proof (induction xs)
  case Nil
  then show ?case by (simp add: js_sort_def)
next
  case (Cons x xs)
  then show ?case
    unfolding js_sort_Cons
    by (intro sorted_js_insert [where S = S and le = le, OF tr tot pos])
       (auto simp: set_js_sort)
qed

lemma sortFeed_ordered:
  assumes "\<forall>x \<in> set xs. sort_key mode x \<noteq> NaN"
  shows "ordered_by mode (sortFeed mode xs)"
proof -
  define S where "S = {x. sort_key mode x \<noteq> NaN}"
  have sub: "set xs \<subseteq> S" using assms by (auto simp: S_def)
  have tr: "\<And>a b c. in_order mode a b \<Longrightarrow> in_order mode b c \<Longrightarrow> in_order mode a c"
    unfolding in_order_def by (auto intro: js_le_trans split: if_splits)
  have tot: "\<And>a b. a \<in> S \<Longrightarrow> b \<in> S \<Longrightarrow> in_order mode a b \<or> in_order mode b a"
    unfolding in_order_def S_def using js_le_total by auto
  show ?thesis
  proof (cases mode)
    case newest
    have pos: "\<And>a b. a \<in> S \<Longrightarrow> b \<in> S \<Longrightarrow>
        positive (js_sub (creationTime b) (creationTime a)) \<longleftrightarrow> \<not> in_order mode a b"
      unfolding in_order_def S_def newest by (simp add: sort_key_def positive_js_sub)
    show ?thesis
      unfolding ordered_by_def sortFeed_def newest SortMode.case
      using sorted_js_sort [where S = S and le = "in_order mode", OF tr tot pos sub]
      by (simp add: newest)
  next
    case tipHigh
    have pos: "\<And>a b. a \<in> S \<Longrightarrow> b \<in> S \<Longrightarrow>
        positive (js_sub (tipOf (job b)) (tipOf (job a))) \<longleftrightarrow> \<not> in_order mode a b"
      unfolding in_order_def S_def tipHigh by (simp add: sort_key_def positive_js_sub)
    show ?thesis
      unfolding ordered_by_def sortFeed_def tipHigh SortMode.case
      using sorted_js_sort [where S = S and le = "in_order mode", OF tr tot pos sub]
      by (simp add: tipHigh)
  next
    case tipLow
    have pos: "\<And>a b. a \<in> S \<Longrightarrow> b \<in> S \<Longrightarrow>
        positive (js_sub (tipOf (job a)) (tipOf (job b))) \<longleftrightarrow> \<not> in_order mode a b"
      unfolding in_order_def S_def tipLow by (simp add: sort_key_def positive_js_sub)
    show ?thesis
      unfolding ordered_by_def sortFeed_def tipLow SortMode.case
      using sorted_js_sort [where S = S and le = "in_order mode", OF tr tot pos sub]
      by (simp add: tipLow)
  next
    case distance
    have pos: "\<And>a b. a \<in> S \<Longrightarrow> b \<in> S \<Longrightarrow>
        positive (js_sub (milesOrInfinity a) (milesOrInfinity b)) \<longleftrightarrow> \<not> in_order mode a b"
      unfolding in_order_def S_def distance by (simp add: sort_key_def positive_js_sub)
    show ?thesis
      unfolding ordered_by_def sortFeed_def distance SortMode.case
      using sorted_js_sort [where S = S and le = "in_order mode", OF tr tot pos sub]
      by (simp add: distance)
  qed
qed

lemma sorted_wrt_nth:
  "sorted_wrt P xs \<Longrightarrow> i < k \<Longrightarrow> k < length xs \<Longrightarrow> P (xs ! i) (xs ! k)"
  by (simp add: sorted_wrt_iff_nth_less)

text \<open>
  C6, as the code has it. The sort step permutes the list. A missing creation date
  counts as time 0 and a job without distance as positive infinity. Under \<open>newest\<close>
  the result is descending by creation time. When no job's key is NaN, the result is
  in the order of the mode: descending and ascending by resolved tip for \<open>tipHigh\<close>
  and \<open>tipLow\<close>, ascending by distance for \<open>distance\<close>, where no job with a finite
  distance stands after a job without distance.
\<close>

theorem sortFeed_orders:
  "mset (sortFeed mode xs) = mset xs
   \<and> ordered_by newest (sortFeed newest xs)
   \<and> (tsToDate (creationDate (job x)) = None \<longrightarrow> sort_key newest x = Fin 0)
   \<and> (miles x = None \<longrightarrow> sort_key distance x = PInf)
   \<and> ((\<forall>x \<in> set xs. sort_key mode x \<noteq> NaN) \<longrightarrow>
        ordered_by mode (sortFeed mode xs)
        \<and> (mode = distance \<longrightarrow>
             (\<forall>i k. i < k \<and> k < length xs \<and> miles (sortFeed mode xs ! i) = None
                \<longrightarrow> (\<forall>m. miles (sortFeed mode xs ! k) \<noteq> Some (Fin m)))))"
proof (intro conjI impI allI)
  show "mset (sortFeed mode xs) = mset xs"
    by (rule mset_sortFeed)
  show "ordered_by newest (sortFeed newest xs)"
    by (rule sortFeed_ordered) (simp add: sort_key_def creationTime_def split: option.splits)
  show "sort_key newest x = Fin 0" if "tsToDate (creationDate (job x)) = None"
    using that by (simp add: sort_key_def creationTime_def)
  show "sort_key distance x = PInf" if "miles x = None"
    using that by (simp add: sort_key_def milesOrInfinity_def)
next
  assume a: "\<forall>x \<in> set xs. sort_key mode x \<noteq> NaN"
  then show o: "ordered_by mode (sortFeed mode xs)"
    by (rule sortFeed_ordered)
  fix i k m
  assume d: "mode = distance"
    and ik: "i < k \<and> k < length xs \<and> miles (sortFeed mode xs ! i) = None"
  have len: "length (sortFeed mode xs) = length xs"
    using mset_sortFeed [of mode xs] by (metis size_mset)
  have "in_order mode (sortFeed mode xs ! i) (sortFeed mode xs ! k)"
    using o ik len unfolding ordered_by_def by (intro sorted_wrt_nth) auto
  then have "js_le PInf (milesOrInfinity (sortFeed mode xs ! k))"
    using ik d by (simp add: in_order_def sort_key_def milesOrInfinity_def)
  then show "miles (sortFeed mode xs ! k) \<noteq> Some (Fin m)"
    by (auto simp: milesOrInfinity_def)
qed

theorem sortFeed_orders_witness:
  "ordered_by tipHigh (sortFeed tipHigh tips_example)
   \<and> ordered_by tipLow (sortFeed tipLow tips_example)
   \<and> ordered_by newest (sortFeed newest tips_example)
   \<and> ordered_by distance (sortFeed distance miles_example)
   \<and> map (id_field \<circ> job) (sortFeed distance miles_example) = [''c'', ''b'', ''a'']"
proof -
  have k: "\<forall>x \<in> set tips_example. sort_key tipHigh x \<noteq> NaN"
    "\<forall>x \<in> set tips_example. sort_key tipLow x \<noteq> NaN"
    "\<forall>x \<in> set tips_example. sort_key newest x \<noteq> NaN"
    "\<forall>x \<in> set miles_example. sort_key distance x \<noteq> NaN"
    by (simp_all add: tips_example_def miles_example_def with_tip_def with_miles_def
        sort_key_def tipOf_def creationTime_def milesOrInfinity_def bare_job_def)
  have v: "map (id_field \<circ> job) (sortFeed distance miles_example) = [''c'', ''b'', ''a'']"
    by (simp add: sortFeed_def js_sort_def miles_example_def with_miles_def
        milesOrInfinity_def bare_job_def js_sub_def overflow_small)
  show ?thesis
    using sortFeed_orders [of tipHigh tips_example "with_tip ''a'' (Fin 1)"]
      sortFeed_orders [of tipLow tips_example "with_tip ''a'' (Fin 1)"]
      sortFeed_orders [of newest tips_example "with_tip ''a'' (Fin 1)"]
      sortFeed_orders [of distance miles_example "with_miles ''a'' None"] k v
    by simp
qed

text \<open>
  A NaN key compares as equal to every other key: between the tips 1 and 2 it keeps
  both in place, and the list is not in descending order of tips.
\<close>

theorem sortFeed_counterexample:
  "map (tipOf \<circ> job) (sortFeed tipHigh tips_nan) = [Fin 1, NaN, Fin 2]
   \<and> \<not> ordered_by tipHigh (sortFeed tipHigh tips_nan)"
  by (simp add: sortFeed_def js_sort_def tips_nan_def with_tip_def tipOf_def bare_job_def
      js_sub_def ordered_by_def in_order_def sort_key_def overflow_small)

section \<open>Geocoding\<close>




section \<open>Responses that arrive late\<close>

lemma resolved_reset_replaces:
  assumes "i < length (tasks p)" "\<not> settled (tasks p ! i)" "with_mode (tasks p ! i) = mode_reset"
  shows "jobs (state (step clk (Resolved i docs) p)) = docs"
  using assms
  by (simp add: fetchJobsPage_resolved_def after_fetch_def Let_def split: caller.splits)

text \<open>
  C9 asks that every response be checked against a cancellation flag, captured when
  the task starts, before each state mutation after the awaited step, so that the
  response of a superseded request never overwrites the feed of a later request. The
  code resumes \<open>fetchJobsPage\<close> without such a check (the effect's \<open>cancelled\<close> guards
  \<open>setLoading(false)\<close> only): after the refresh has put the newer page into the feed,
  the late response of the first request replaces it with the older page.
\<close>

theorem stale_response_overwrites:
  "map id_field (jobs (state (run clock0 (take 3 race) initial_page))) = [''new'', ''old'']
   \<and> map id_field (jobs (state (run clock0 race initial_page))) = [''old'']"
  by (simp add: race_def run_def initial_page_def initial_state_def begin_task_def
      fetchJobsPage_start_def fetchJobsPage_resolved_def after_fetch_def bare_job_def
      PAGE_SIZE_def)

end
